theory Spec2Isabelle
  imports Complex_Main
begin

section \<open>Data model of heredity.py\<close>

text \<open>
  The program is Python. Its floats are modelled by the reals: every probability of the
  table \<open>PROBS\<close> is the decimal fraction written in the source, and products and sums are
  exact. Python sets of names are \<open>string set\<close>; where the program iterates over a set
  (\<open>powerset\<close>), the set is given as the list of its elements in iteration order.
  A dict whose order of keys matters (\<open>people\<close>, \<open>probabilities\<close>) is an association list
  with distinct keys, in insertion order; a lookup \<open>d[k]\<close> of a key that is absent
  raises \<open>KeyError\<close>. Python leaves the iteration order of a set open; the set of the
  keys of \<open>people\<close> is listed in the order of the dict, and no theorem below depends on
  that order.
\<close>

datatype error = KeyError | TypeError | ZeroDivisionError | NotImplementedError

definition bind_r :: "error + 'a \<Rightarrow> ('a \<Rightarrow> error + 'b) \<Rightarrow> error + 'b" where
  "bind_r m f = (case m of Inl e \<Rightarrow> Inl e | Inr x \<Rightarrow> f x)"

text \<open>One row of the CSV file as \<open>load_data\<close> stores it (lines 109 to 115).\<close>

record person =
  name :: string
  mother :: "string option"
  father :: "string option"
  trait :: "bool option"

type_synonym people = "(string \<times> person) list"

text \<open>\<open>people[person]\<close>.\<close>

definition getitem :: "people \<Rightarrow> string \<Rightarrow> error + person" where
  "getitem people p = (case map_of people p of None \<Rightarrow> Inl KeyError | Some r \<Rightarrow> Inr r)"

text \<open>
  \<open>x in s\<close> for a field \<open>x\<close> that holds a name or \<open>None\<close> and a set \<open>s\<close> of names:
  \<open>None\<close> is a member of no set of names.
\<close>

fun py_in :: "string option \<Rightarrow> string set \<Rightarrow> bool" where
  "py_in None s = False"
| "py_in (Some n) s = (n \<in> s)"

subsection \<open>The table PROBS (lines 5 to 37)\<close>

text \<open>The table is only read at the literal keys 0, 1 and 2.\<close>

definition PROBS_gene :: "nat \<Rightarrow> real" where
  "PROBS_gene k = (if k = 2 then 0.01 else if k = 1 then 0.03 else 0.96)"

definition PROBS_trait :: "nat \<Rightarrow> bool \<Rightarrow> real" where
  "PROBS_trait k t =
     (if k = 2 then (if t then 0.65 else 0.35)
      else if k = 1 then (if t then 0.56 else 0.44)
      else (if t then 0.01 else 0.99))"

definition PROBS_mutation :: real where
  "PROBS_mutation = 0.01"

section \<open>The helpers of joint_probability\<close>

text \<open>\<open>check_parents\<close> (lines 270 to 273): the person has neither a father nor a mother.\<close>

definition check_parents :: "people \<Rightarrow> string \<Rightarrow> error + bool" where
  "check_parents people p =
     bind_r (getitem people p) (\<lambda>r.
       if father r = None \<and> mother r = None then Inr True else Inr False)"

text \<open>\<open>gene_prob\<close> (lines 276 to 293).\<close>

definition gene_prob :: "string \<Rightarrow> string set \<Rightarrow> string set \<Rightarrow> string set \<Rightarrow> real" where
  "gene_prob p one_gene two_genes have_trait =
     (if p \<in> have_trait then
        (if p \<in> one_gene then PROBS_gene 1 * PROBS_trait 1 True
         else if p \<in> two_genes then PROBS_gene 2 * PROBS_trait 2 True
         else PROBS_gene 0 * PROBS_trait 0 True)
      else
        (if p \<in> one_gene then PROBS_gene 1 * PROBS_trait 1 False
         else if p \<in> two_genes then PROBS_gene 2 * PROBS_trait 2 False
         else PROBS_gene 0 * PROBS_trait 0 False))"

text \<open>
  \<open>zero_copies\<close> (lines 309 to 312). The argument \<open>parent\<close> is the key \<open>'father'\<close> or
  \<open>'mother'\<close> of the row, modelled by the field selector.
\<close>

definition zero_copies ::
  "people \<Rightarrow> (person \<Rightarrow> string option) \<Rightarrow> string \<Rightarrow> string set \<Rightarrow> string set \<Rightarrow> error + bool" where
  "zero_copies people parent p one_gene two_genes =
     bind_r (getitem people p) (\<lambda>r.
       if \<not> py_in (parent r) one_gene \<and> \<not> py_in (parent r) two_genes
       then Inr True else Inr False)"

text \<open>
  \<open>parents\<close> (lines 295 to 307). The function ends without a \<open>return\<close> when no test
  holds, and Python then returns \<open>None\<close>: the result is a \<open>nat option\<close>.
\<close>

definition parents :: "people \<Rightarrow> string \<Rightarrow> string set \<Rightarrow> string set \<Rightarrow> error + nat option" where
  "parents people p one_gene two_genes =
     bind_r (getitem people p) (\<lambda>r.
     bind_r (zero_copies people father p one_gene two_genes) (\<lambda>zf.
     bind_r (zero_copies people mother p one_gene two_genes) (\<lambda>zm.
       Inr (if zf \<and> zm then Some 0
            else if py_in (father r) one_gene \<and> py_in (mother r) one_gene then Some 1
            else if py_in (father r) two_genes \<and> py_in (mother r) two_genes then Some 2
            else if (py_in (father r) one_gene \<and> py_in (mother r) two_genes)
                  \<or> (py_in (father r) two_genes \<and> py_in (mother r) one_gene) then Some 3
            else if (zf \<and> py_in (mother r) one_gene)
                  \<or> (zm \<and> py_in (father r) one_gene) then Some 4
            else if (zf \<and> py_in (mother r) two_genes)
                  \<or> (zm \<and> py_in (father r) two_genes) then Some 5
            else None))))"

section \<open>joint_probability (lines 131 to 268)\<close>

text \<open>
  The body of the loop has six blocks, one for each code that \<open>parents\<close> returns. Each
  block is a definition here, named after the code it is guarded by; \<open>nm\<close> is
  \<open>people[person]['name']\<close>. An augmented assignment \<open>joint_p *= e\<close> evaluates \<open>e\<close>
  first and then multiplies.
\<close>

text \<open>Lines 148 to 166: zero copies in both parents.\<close>

definition branch0 :: "string \<Rightarrow> string set \<Rightarrow> string set \<Rightarrow> string set \<Rightarrow> real \<Rightarrow> real" where
  "branch0 nm one_gene two_genes have_trait joint_p =
     (if nm \<in> one_gene then
        (let joint_p = joint_p * ((1 - PROBS_mutation) * PROBS_mutation
                                   + (1 - PROBS_mutation) * PROBS_mutation)
         in if nm \<in> have_trait then joint_p * PROBS_trait 1 True
            else joint_p * PROBS_trait 1 False)
      else if nm \<in> two_genes then
        (let joint_p = joint_p * (PROBS_mutation * PROBS_mutation)
         in if nm \<in> have_trait then joint_p * PROBS_trait 2 True
            else joint_p * PROBS_trait 2 False)
      else
        (let joint_p = joint_p * ((1 - PROBS_mutation) * (1 - PROBS_mutation))
         in if nm \<in> have_trait then joint_p * PROBS_trait 0 True
            else joint_p * PROBS_trait 0 False))"

text \<open>Lines 168 to 186: one copy for both parents.\<close>

definition branch1 :: "string \<Rightarrow> string set \<Rightarrow> string set \<Rightarrow> string set \<Rightarrow> real \<Rightarrow> real" where
  "branch1 nm one_gene two_genes have_trait joint_p =
     (if nm \<in> one_gene then
        (let joint_p = joint_p * ((0.5 * 0.5) + (0.5 * 0.5))
         in if nm \<in> have_trait then joint_p * PROBS_trait 1 True
            else joint_p * PROBS_trait 1 False)
      else if nm \<in> two_genes then
        (let joint_p = joint_p * (0.5 * 0.5)
         in if nm \<in> have_trait then joint_p * PROBS_trait 2 True
            else joint_p * PROBS_trait 2 False)
      else
        (let joint_p = joint_p * (0.5 * 0.5)
         in if nm \<in> have_trait then joint_p * PROBS_trait 0 True
            else joint_p * PROBS_trait 0 False))"

text \<open>Lines 188 to 206: two copies for both parents.\<close>

definition branch2 :: "string \<Rightarrow> string set \<Rightarrow> string set \<Rightarrow> string set \<Rightarrow> real \<Rightarrow> real" where
  "branch2 nm one_gene two_genes have_trait joint_p =
     (if nm \<in> one_gene then
        (let joint_p = joint_p * ((1 - PROBS_mutation) * PROBS_mutation
                                   + (1 - PROBS_mutation) * PROBS_mutation)
         in if nm \<in> have_trait then joint_p * PROBS_trait 1 True
            else joint_p * PROBS_trait 1 False)
      else if nm \<in> two_genes then
        (let joint_p = joint_p * ((1 - PROBS_mutation) * (1 - PROBS_mutation))
         in if nm \<in> have_trait then joint_p * PROBS_trait 2 True
            else joint_p * PROBS_trait 2 False)
      else
        (let joint_p = joint_p * (PROBS_mutation * PROBS_mutation)
         in if nm \<in> have_trait then joint_p * PROBS_trait 0 True
            else joint_p * PROBS_trait 0 False))"

text \<open>Lines 208 to 226: one copy for one parent and two copies for the other parent.\<close>

definition branch3 :: "string \<Rightarrow> string set \<Rightarrow> string set \<Rightarrow> string set \<Rightarrow> real \<Rightarrow> real" where
  "branch3 nm one_gene two_genes have_trait joint_p =
     (if nm \<in> one_gene then
        (let joint_p = joint_p * ((0.5 * PROBS_mutation) + ((1 - PROBS_mutation) * 0.5))
         in if nm \<in> have_trait then joint_p * PROBS_trait 1 True
            else joint_p * PROBS_trait 1 False)
      else if nm \<in> two_genes then
        (let joint_p = joint_p * (0.5 * (1 - PROBS_mutation))
         in if nm \<in> have_trait then joint_p * PROBS_trait 2 True
            else joint_p * PROBS_trait 2 False)
      else
        (let joint_p = joint_p * (0.5 * PROBS_mutation)
         in if nm \<in> have_trait then joint_p * PROBS_trait 0 True
            else joint_p * PROBS_trait 0 False))"

text \<open>Lines 228 to 246: one copy for one parent and zero copies for the other parent.\<close>

definition branch4 :: "string \<Rightarrow> string set \<Rightarrow> string set \<Rightarrow> string set \<Rightarrow> real \<Rightarrow> real" where
  "branch4 nm one_gene two_genes have_trait joint_p =
     (if nm \<in> one_gene then
        (let joint_p = joint_p * ((0.5 * PROBS_mutation) + ((1 - PROBS_mutation) * 0.5))
         in if nm \<in> have_trait then joint_p * PROBS_trait 1 True
            else joint_p * PROBS_trait 1 False)
      else if nm \<in> two_genes then
        (let joint_p = joint_p * (0.5 * PROBS_mutation)
         in if nm \<in> have_trait then joint_p * PROBS_trait 2 True
            else joint_p * PROBS_trait 2 False)
      else
        (let joint_p = joint_p * ((1 - PROBS_mutation) * 0.5)
         in if nm \<in> have_trait then joint_p * PROBS_trait 0 True
            else joint_p * PROBS_trait 0 False))"

text \<open>Lines 249 to 267: two copies for one parent and zero copies for the other parent.\<close>

definition branch5 :: "string \<Rightarrow> string set \<Rightarrow> string set \<Rightarrow> string set \<Rightarrow> real \<Rightarrow> real" where
  "branch5 nm one_gene two_genes have_trait joint_p =
     (if nm \<in> one_gene then
        (let joint_p = joint_p * ((1 - PROBS_mutation * 1 - PROBS_mutation)
                                   + PROBS_mutation * PROBS_mutation)
         in if nm \<in> have_trait then joint_p * PROBS_trait 1 True
            else joint_p * PROBS_trait 1 False)
      else if nm \<in> two_genes then
        (let joint_p = joint_p * ((1 - PROBS_mutation) * PROBS_mutation)
         in if nm \<in> have_trait then joint_p * PROBS_trait 2 True
            else joint_p * PROBS_trait 2 False)
      else
        (let joint_p = joint_p * ((1 - PROBS_mutation) * PROBS_mutation)
         in if nm \<in> have_trait then joint_p * PROBS_trait 0 True
            else joint_p * PROBS_trait 0 False))"

text \<open>
  One round of the loop \<open>for person in people\<close> (lines 144 to 267). The six tests
  \<open>parents(...) == k\<close> call a function without effects on the same arguments, so the
  call is made once here; a result \<open>None\<close> equals none of the codes.
\<close>

definition joint_step ::
  "people \<Rightarrow> string set \<Rightarrow> string set \<Rightarrow> string set \<Rightarrow> real \<Rightarrow> string \<Rightarrow> error + real" where
  "joint_step people one_gene two_genes have_trait joint_p p =
     bind_r (check_parents people p) (\<lambda>founder.
       if founder then Inr (joint_p * gene_prob p one_gene two_genes have_trait)
       else
         bind_r (parents people p one_gene two_genes) (\<lambda>code.
         bind_r (getitem people p) (\<lambda>r.
           let nm = name r;
               joint_p = (if code = Some 0
                          then branch0 nm one_gene two_genes have_trait joint_p else joint_p);
               joint_p = (if code = Some 1
                          then branch1 nm one_gene two_genes have_trait joint_p else joint_p);
               joint_p = (if code = Some 2
                          then branch2 nm one_gene two_genes have_trait joint_p else joint_p);
               joint_p = (if code = Some 3
                          then branch3 nm one_gene two_genes have_trait joint_p else joint_p);
               joint_p = (if code = Some 4
                          then branch4 nm one_gene two_genes have_trait joint_p else joint_p);
               joint_p = (if code = Some 5
                          then branch5 nm one_gene two_genes have_trait joint_p else joint_p)
           in Inr joint_p)))"

fun joint_loop ::
  "people \<Rightarrow> string set \<Rightarrow> string set \<Rightarrow> string set \<Rightarrow> real \<Rightarrow> string list \<Rightarrow> error + real" where
  "joint_loop people one_gene two_genes have_trait joint_p [] = Inr joint_p"
| "joint_loop people one_gene two_genes have_trait joint_p (p # rest) =
     bind_r (joint_step people one_gene two_genes have_trait joint_p p) (\<lambda>joint_p.
       joint_loop people one_gene two_genes have_trait joint_p rest)"

text \<open>The loop runs over the keys of \<open>people\<close>, starting from \<open>joint_p = 1\<close>.\<close>

definition joint_probability ::
  "people \<Rightarrow> string set \<Rightarrow> string set \<Rightarrow> string set \<Rightarrow> error + real" where
  "joint_probability people one_gene two_genes have_trait =
     joint_loop people one_gene two_genes have_trait 1 (map fst people)"

section \<open>The accumulators: update and normalize\<close>

text \<open>
  \<open>probabilities\<close> maps each person to a dict with the keys \<open>"gene"\<close> and \<open>"trait"\<close>,
  each holding a dict from a gene count or a truth value to a number (lines 48 to 61).
  The values of a Python dict are not typed, and \<open>normalize\<close> depends on what they are,
  so a value is a number or a dict.
\<close>

datatype pykey = KStr string | KInt int | KBool bool

datatype pyval = Num real | Dict "(pykey \<times> pyval) list"

type_synonym probabilities = "(string \<times> pyval) list"

definition init_probabilities :: "people \<Rightarrow> probabilities" where
  "init_probabilities people =
     map (\<lambda>(p, r).
       (p, Dict [(KStr ''gene'', Dict [(KInt 2, Num 0), (KInt 1, Num 0), (KInt 0, Num 0)]),
                 (KStr ''trait'', Dict [(KBool True, Num 0), (KBool False, Num 0)])])) people"

text \<open>\<open>update\<close> (lines 314 to 321): the body is \<open>raise NotImplementedError\<close>.\<close>

definition update ::
  "probabilities \<Rightarrow> string set \<Rightarrow> string set \<Rightarrow> string set \<Rightarrow> real \<Rightarrow> error + probabilities" where
  "update probabilities one_gene two_genes have_trait p = Inl NotImplementedError"

text \<open>
  Python's \<open>+\<close>, \<open>/\<close> and \<open>*\<close> on these values: defined on two numbers, a \<open>TypeError\<close>
  when an operand is a dict; dividing by zero raises \<open>ZeroDivisionError\<close>.
\<close>

fun py_add :: "pyval \<Rightarrow> pyval \<Rightarrow> error + pyval" where
  "py_add (Num a) (Num b) = Inr (Num (a + b))"
| "py_add _ _ = Inl TypeError"

fun py_truediv :: "pyval \<Rightarrow> pyval \<Rightarrow> error + pyval" where
  "py_truediv (Num a) (Num b) = (if b = 0 then Inl ZeroDivisionError else Inr (Num (a / b)))"
| "py_truediv _ _ = Inl TypeError"

fun py_mul :: "pyval \<Rightarrow> pyval \<Rightarrow> error + pyval" where
  "py_mul (Num a) (Num b) = Inr (Num (a * b))"
| "py_mul _ _ = Inl TypeError"

text \<open>The builtin \<open>sum\<close>: the running total starts at 0 and each item is added to it.\<close>

fun py_sum_from :: "pyval \<Rightarrow> pyval list \<Rightarrow> error + pyval" where
  "py_sum_from acc [] = Inr acc"
| "py_sum_from acc (v # vs) = bind_r (py_add acc v) (\<lambda>acc. py_sum_from acc vs)"

definition py_sum :: "pyval list \<Rightarrow> error + pyval" where
  "py_sum vs = py_sum_from (Num 0) vs"

text \<open>The loop of \<open>normalize\<close> (lines 330 and 331): every value is replaced in turn.\<close>

fun normalize_loop :: "pyval \<Rightarrow> probabilities \<Rightarrow> error + probabilities" where
  "normalize_loop total_inverse [] = Inr []"
| "normalize_loop total_inverse ((key, val) # rest) =
     bind_r (py_mul val total_inverse) (\<lambda>v.
     bind_r (normalize_loop total_inverse rest) (\<lambda>rest. Inr ((key, v) # rest)))"

text \<open>\<open>normalize\<close> (lines 324 to 332).\<close>

definition normalize :: "probabilities \<Rightarrow> error + probabilities" where
  "normalize probabilities =
     bind_r (py_sum (map snd probabilities)) (\<lambda>total.
     bind_r (py_truediv (Num 1) total) (\<lambda>total_inverse.
       normalize_loop total_inverse probabilities))"

section \<open>The enumeration driver (lines 63 to 85 of main)\<close>

text \<open>
  \<open>itertools.combinations(s, r)\<close>: the sublists of length \<open>r\<close>, in the order of the
  positions. \<open>powerset\<close> (lines 119 to 128) chains them for \<open>r\<close> from 0 to \<open>len(s)\<close> and
  makes a set of each.
\<close>

fun combinations :: "'a list \<Rightarrow> nat \<Rightarrow> 'a list list" where
  "combinations xs 0 = [[]]"
| "combinations [] (Suc r) = []"
| "combinations (x # xs) (Suc r) = map ((#) x) (combinations xs r) @ combinations xs (Suc r)"

definition powerset :: "string list \<Rightarrow> string set list" where
  "powerset s = map set (concat (map (combinations s) [0..<length s + 1]))"

text \<open>\<open>fails_evidence\<close> (lines 68 to 72): \<open>any\<close> stops at the first person that conflicts.\<close>

fun fails_evidence :: "people \<Rightarrow> string list \<Rightarrow> string set \<Rightarrow> error + bool" where
  "fails_evidence people [] have_trait = Inr False"
| "fails_evidence people (p # rest) have_trait =
     bind_r (getitem people p) (\<lambda>r.
       if trait r \<noteq> None \<and> trait r \<noteq> Some (p \<in> have_trait) then Inr True
       else fails_evidence people rest have_trait)"

text \<open>
  The three nested loops. Each carries the accumulators and, as a record of what the
  driver did, the list of the triples on which \<open>joint_probability\<close> has been called so
  far; an exception ends all three loops and keeps that list. The function \<open>upd\<close> is
  the one the loop body calls to fold \<open>p\<close> into the accumulators: \<open>main\<close> calls
  \<open>update\<close>. The set \<open>names - one_gene\<close> is listed in the order of \<open>names\<close>.
\<close>

type_synonym triple = "string set \<times> string set \<times> string set"

type_synonym updater =
  "probabilities \<Rightarrow> string set \<Rightarrow> string set \<Rightarrow> string set \<Rightarrow> real \<Rightarrow> error + probabilities"

fun for_two_genes ::
  "updater \<Rightarrow> people \<Rightarrow> string set \<Rightarrow> string set \<Rightarrow> string set list
     \<Rightarrow> triple list \<times> probabilities \<Rightarrow> triple list \<times> (error + probabilities)" where
  "for_two_genes upd people have_trait one_gene [] (calls, probs) = (calls, Inr probs)"
| "for_two_genes upd people have_trait one_gene (two_genes # rest) (calls, probs) =
     (case bind_r (joint_probability people one_gene two_genes have_trait) (\<lambda>p.
             upd probs one_gene two_genes have_trait p) of
        Inl e \<Rightarrow> (calls @ [(one_gene, two_genes, have_trait)], Inl e)
      | Inr probs \<Rightarrow>
          for_two_genes upd people have_trait one_gene rest
            (calls @ [(one_gene, two_genes, have_trait)], probs))"

fun for_one_gene ::
  "updater \<Rightarrow> people \<Rightarrow> string list \<Rightarrow> string set \<Rightarrow> string set list
     \<Rightarrow> triple list \<times> probabilities \<Rightarrow> triple list \<times> (error + probabilities)" where
  "for_one_gene upd people names have_trait [] (calls, probs) = (calls, Inr probs)"
| "for_one_gene upd people names have_trait (one_gene # rest) (calls, probs) =
     (case for_two_genes upd people have_trait one_gene
             (powerset (filter (\<lambda>n. n \<notin> one_gene) names)) (calls, probs) of
        (calls, Inl e) \<Rightarrow> (calls, Inl e)
      | (calls, Inr probs) \<Rightarrow> for_one_gene upd people names have_trait rest (calls, probs))"

fun for_have_trait ::
  "updater \<Rightarrow> people \<Rightarrow> string list \<Rightarrow> string set list
     \<Rightarrow> triple list \<times> probabilities \<Rightarrow> triple list \<times> (error + probabilities)" where
  "for_have_trait upd people names [] (calls, probs) = (calls, Inr probs)"
| "for_have_trait upd people names (have_trait # rest) (calls, probs) =
     (case fails_evidence people names have_trait of
        Inl e \<Rightarrow> (calls, Inl e)
      | Inr True \<Rightarrow> for_have_trait upd people names rest (calls, probs)
      | Inr False \<Rightarrow>
          (case for_one_gene upd people names have_trait (powerset names) (calls, probs) of
             (calls, Inl e) \<Rightarrow> (calls, Inl e)
           | (calls, Inr probs) \<Rightarrow> for_have_trait upd people names rest (calls, probs)))"

text \<open>Lines 48 to 82: the accumulators start at zero, \<open>names\<close> are the keys of \<open>people\<close>.\<close>

definition enumerate_all :: "updater \<Rightarrow> people \<Rightarrow> triple list \<times> (error + probabilities)" where
  "enumerate_all upd people =
     (let names = map fst people
      in for_have_trait upd people names (powerset names) ([], init_probabilities people))"

text \<open>
  The core of \<open>main\<close> (lines 48 to 85), from the loaded \<open>people\<close> to the distributions
  that are printed: the enumeration with \<open>update\<close>, then \<open>normalize\<close>.
\<close>

definition main_core :: "people \<Rightarrow> error + probabilities" where
  "main_core people =
     (case enumerate_all update people of
        (calls, Inl e) \<Rightarrow> Inl e
      | (calls, Inr probs) \<Rightarrow> normalize probs)"

section \<open>Example pedigrees\<close>

text \<open>A couple of founders and their child, with no trait known.\<close>

definition child :: person where
  "child = \<lparr>name = ''Child'', mother = Some ''Mom'', father = Some ''Dad'', trait = None\<rparr>"

definition dad :: person where
  "dad = \<lparr>name = ''Dad'', mother = None, father = None, trait = None\<rparr>"

definition mom :: person where
  "mom = \<lparr>name = ''Mom'', mother = None, father = None, trait = None\<rparr>"

definition family :: people where
  "family = [(''Child'', child), (''Dad'', dad), (''Mom'', mom)]"

text \<open>A single founder who is known to have the trait.\<close>

definition harry :: person where
  "harry = \<lparr>name = ''Harry'', mother = None, father = None, trait = Some True\<rparr>"

definition loner :: people where
  "loner = [(''Harry'', harry)]"

text \<open>
  A pedigree that breaks both rules of \<open>load_data\<close>'s docstring: the only person has a
  mother and no father, and the mother is not a person of the file.
\<close>

definition orphan :: person where
  "orphan = \<lparr>name = ''Child'', mother = Some ''Ghost'', father = None, trait = None\<rparr>"

definition malformed :: people where
  "malformed = [(''Child'', orphan)]"

text \<open>
  A pedigree that breaks the first rule only: the child has a mother, who is a person of
  the file, and no father.
\<close>

definition half_orphan :: person where
  "half_orphan = \<lparr>name = ''Child'', mother = Some ''Mom'', father = None, trait = None\<rparr>"

definition one_parent :: people where
  "one_parent = [(''Child'', half_orphan), (''Mom'', mom)]"

section \<open>Lookups that succeed\<close>

lemmas family_defs = family_def child_def dad_def mom_def

lemmas loner_defs = loner_def harry_def

lemmas code_defs = getitem_def check_parents_def zero_copies_def parents_def bind_r_def
  joint_probability_def joint_step_def gene_prob_def
  branch0_def branch1_def branch2_def branch3_def branch4_def branch5_def
  PROBS_gene_def PROBS_trait_def PROBS_mutation_def

lemma zero_copies_found:
  "getitem people p = Inr r \<Longrightarrow>
   zero_copies people parent p one_gene two_genes =
     Inr (\<not> py_in (parent r) one_gene \<and> \<not> py_in (parent r) two_genes)"
  by (simp add: zero_copies_def bind_r_def)

lemma check_parents_found:
  "getitem people p = Inr r \<Longrightarrow>
   check_parents people p = Inr (father r = None \<and> mother r = None)"
  by (simp add: check_parents_def bind_r_def)

lemma parents_found:
  "getitem people p = Inr r \<Longrightarrow>
   parents people p one_gene two_genes =
     Inr (let zf = \<not> py_in (father r) one_gene \<and> \<not> py_in (father r) two_genes;
              zm = \<not> py_in (mother r) one_gene \<and> \<not> py_in (mother r) two_genes
          in if zf \<and> zm then Some 0
            else if py_in (father r) one_gene \<and> py_in (mother r) one_gene then Some 1
            else if py_in (father r) two_genes \<and> py_in (mother r) two_genes then Some 2
            else if (py_in (father r) one_gene \<and> py_in (mother r) two_genes)
                  \<or> (py_in (father r) two_genes \<and> py_in (mother r) one_gene) then Some 3
            else if (zf \<and> py_in (mother r) one_gene)
                  \<or> (zm \<and> py_in (father r) one_gene) then Some 4
            else if (zf \<and> py_in (mother r) two_genes)
                  \<or> (zm \<and> py_in (father r) two_genes) then Some 5
            else None)"
  by (simp add: parents_def zero_copies_found bind_r_def Let_def)

section \<open>The parents classifier is total\<close>

text \<open>
  Claim C10. For a person of the pedigree with both parents recorded and disjoint sets
  \<open>one_gene\<close> and \<open>two_genes\<close>, \<open>parents\<close> returns one of the codes 0 to 5 and never
  \<open>None\<close>: each of the nine pairs of the parents' gene counts meets one of the six
  tests, so one of the six blocks of \<open>joint_probability\<close> is run.
\<close>

theorem parents_total:
  assumes "getitem people p = Inr r"
    and "father r = Some f" and "mother r = Some m"
    and "one_gene \<inter> two_genes = {}"
  shows "\<exists>k. k \<le> 5 \<and> parents people p one_gene two_genes = Inr (Some k)"
proof -
  have zf: "zero_copies people father p one_gene two_genes
              = Inr (f \<notin> one_gene \<and> f \<notin> two_genes)"
    using zero_copies_found [OF assms(1), of father] assms(2) by simp
  have zm: "zero_copies people mother p one_gene two_genes
              = Inr (m \<notin> one_gene \<and> m \<notin> two_genes)"
    using zero_copies_found [OF assms(1), of mother] assms(3) by simp
  show ?thesis
    unfolding parents_def zf zm
    using assms(1,2,3) by (simp add: bind_r_def)
qed

theorem parents_total_witness:
  "getitem family ''Child'' = Inr child \<and> father child = Some ''Dad''
   \<and> mother child = Some ''Mom'' \<and> {''Dad''} \<inter> {''Mom''} = ({} :: string set)
   \<and> parents family ''Child'' {''Dad''} {''Mom''} = Inr (Some 3)"
  using parents_total [of family "''Child''" child "''Dad''" "''Mom''" "{''Dad''}" "{''Mom''}"]
  by (simp add: family_defs code_defs)

section \<open>The factor of one person\<close>

text \<open>
  Claim C7. For a founder, one round of the loop multiplies \<open>joint_p\<close> by the prior of
  the person's gene count (0.96 for 0 copies, 0.03 for 1, 0.01 for 2) times the
  probability of the person's trait value given that count; the count is 2 for a member
  of \<open>two_genes\<close>, 1 for a member of \<open>one_gene\<close>, else 0, the two sets being disjoint.
\<close>

theorem founder_factor:
  assumes "getitem people p = Inr r"
    and "father r = None" and "mother r = None"
    and "one_gene \<inter> two_genes = {}"
  shows "(let k = (if p \<in> two_genes then 2 else if p \<in> one_gene then 1 else 0)
          in joint_step people one_gene two_genes have_trait joint_p p
               = Inr (joint_p * (PROBS_gene k * PROBS_trait k (p \<in> have_trait))))
         \<and> PROBS_gene 0 = 0.96 \<and> PROBS_gene 1 = 0.03 \<and> PROBS_gene 2 = 0.01"
proof -
  have founder: "check_parents people p = Inr True"
    using check_parents_found [OF assms(1)] assms(2,3) by simp
  have "\<not> (p \<in> one_gene \<and> p \<in> two_genes)"
    using assms(4) by blast
  then have "gene_prob p one_gene two_genes have_trait
      = (let k = (if p \<in> two_genes then 2 else if p \<in> one_gene then 1 else 0)
         in PROBS_gene k * PROBS_trait k (p \<in> have_trait))"
    by (auto simp add: gene_prob_def Let_def)
  then show ?thesis
    by (simp add: joint_step_def founder bind_r_def Let_def PROBS_gene_def)
qed

theorem founder_factor_witness:
  "getitem loner ''Harry'' = Inr harry \<and> father harry = None \<and> mother harry = None
   \<and> {} \<inter> {''Harry''} = ({} :: string set)
   \<and> joint_step loner {} {''Harry''} {''Harry''} 1 ''Harry'' = Inr (0.01 * 0.65)"
  using founder_factor [of loner "''Harry''" harry "{}" "{''Harry''}" "{''Harry''}" 1]
  by (simp add: loner_defs getitem_def PROBS_gene_def PROBS_trait_def)

text \<open>
  Claim C5. For a person whose recorded parents both carry no copy, the gene factor is
  \<open>m\<^sup>2 = 0.0001\<close> for a child in \<open>two_genes\<close>, \<open>2 m (1 - m) = 0.0198\<close> for a child
  in \<open>one_gene\<close> and \<open>(1 - m)\<^sup>2 = 0.9801\<close> for a child with no copy, and the three
  values sum to 1.
\<close>

theorem both_parents_zero_factors:
  assumes "getitem people p = Inr r"
    and "father r = Some fa" and "mother r = Some mo"
    and "fa \<notin> one_gene" and "fa \<notin> two_genes"
    and "mo \<notin> one_gene" and "mo \<notin> two_genes"
    and "one_gene \<inter> two_genes = {}"
  shows "joint_step people one_gene two_genes have_trait joint_p p
           = Inr (joint_p
                  * (if name r \<in> two_genes then PROBS_mutation * PROBS_mutation
                     else if name r \<in> one_gene then 2 * PROBS_mutation * (1 - PROBS_mutation)
                     else (1 - PROBS_mutation) * (1 - PROBS_mutation))
                  * PROBS_trait (if name r \<in> two_genes then 2
                                 else if name r \<in> one_gene then 1 else 0)
                      (name r \<in> have_trait))
         \<and> PROBS_mutation * PROBS_mutation = 0.0001
         \<and> (1 - PROBS_mutation) * (1 - PROBS_mutation) = 0.9801
         \<and> 2 * PROBS_mutation * (1 - PROBS_mutation) = 0.0198
         \<and> PROBS_mutation * PROBS_mutation + (1 - PROBS_mutation) * (1 - PROBS_mutation)
             + 2 * PROBS_mutation * (1 - PROBS_mutation) = 1"
proof -
  have founder: "check_parents people p = Inr False"
    using check_parents_found [OF assms(1)] assms(2) by simp
  have code: "parents people p one_gene two_genes = Inr (Some 0)"
    using parents_found [OF assms(1)] assms(2-7) by simp
  have excl: "\<not> (name r \<in> one_gene \<and> name r \<in> two_genes)"
    using assms(8) by blast
  have step: "joint_step people one_gene two_genes have_trait joint_p p
                = Inr (branch0 (name r) one_gene two_genes have_trait joint_p)"
    by (simp add: joint_step_def founder code assms(1) bind_r_def Let_def)
  show ?thesis
    unfolding step using excl
    by (auto simp add: branch0_def Let_def PROBS_mutation_def)
qed

theorem both_parents_zero_factors_witness:
  "getitem family ''Child'' = Inr child \<and> father child = Some ''Dad''
   \<and> mother child = Some ''Mom'' \<and> ''Dad'' \<notin> {} \<and> ''Dad'' \<notin> {''Child''}
   \<and> ''Mom'' \<notin> {} \<and> ''Mom'' \<notin> {''Child''} \<and> {} \<inter> {''Child''} = ({} :: string set)
   \<and> joint_step family {} {''Child''} {} 1 ''Child'' = Inr (0.0001 * 0.35)"
  using both_parents_zero_factors
    [of family "''Child''" child "''Dad''" "''Mom''" "{}" "{''Child''}" "{}" 1]
  by (simp add: family_defs getitem_def PROBS_trait_def PROBS_mutation_def)

text \<open>
  Claim C6. For a person whose recorded parents both carry one copy, the gene factor is
  0.25 for a child in \<open>two_genes\<close>, 0.5 for a child in \<open>one_gene\<close> and 0.25 for a
  child with no copy: each parent passes the gene on with probability 0.5, and the
  mutation rate does not occur.
\<close>

theorem both_parents_one_factors:
  assumes "getitem people p = Inr r"
    and "father r = Some fa" and "mother r = Some mo"
    and "fa \<in> one_gene" and "mo \<in> one_gene"
    and "one_gene \<inter> two_genes = {}"
  shows "joint_step people one_gene two_genes have_trait joint_p p
           = Inr (joint_p
                  * (if name r \<in> two_genes then 0.25
                     else if name r \<in> one_gene then 0.5
                     else 0.25)
                  * PROBS_trait (if name r \<in> two_genes then 2
                                 else if name r \<in> one_gene then 1 else 0)
                      (name r \<in> have_trait))"
proof -
  have founder: "check_parents people p = Inr False"
    using check_parents_found [OF assms(1)] assms(2) by simp
  have code: "parents people p one_gene two_genes = Inr (Some 1)"
    using parents_found [OF assms(1)] assms(2-5) by simp
  have excl: "\<not> (name r \<in> one_gene \<and> name r \<in> two_genes)"
    using assms(6) by blast
  have step: "joint_step people one_gene two_genes have_trait joint_p p
                = Inr (branch1 (name r) one_gene two_genes have_trait joint_p)"
    by (simp add: joint_step_def founder code assms(1) bind_r_def Let_def)
  show ?thesis
    unfolding step using excl
    by (auto simp add: branch1_def Let_def)
qed


theorem both_parents_one_factors_witness:
  "getitem family ''Child'' = Inr child \<and> father child = Some ''Dad''
   \<and> mother child = Some ''Mom'' \<and> ''Dad'' \<in> {''Dad'', ''Mom'', ''Child''}
   \<and> ''Mom'' \<in> {''Dad'', ''Mom'', ''Child''}
   \<and> {''Dad'', ''Mom'', ''Child''} \<inter> {} = ({} :: string set)
   \<and> joint_step family {''Dad'', ''Mom'', ''Child''} {} {''Child''} 1 ''Child''
       = Inr (0.5 * 0.56)"
  using both_parents_one_factors
    [of family "''Child''" child "''Dad''" "''Mom''" "{''Dad'', ''Mom'', ''Child''}" "{}"
       "{''Child''}" 1]
  by (simp add: family_defs getitem_def PROBS_trait_def)

text \<open>
  Claim C3, evaluated on the family with the father carrying two copies, the mother none
  and the child one. The classifier returns the code 5 and the round of the child
  multiplies by the gene factor \<open>(1 - m * 1 - m) + m * m = 0.9801\<close> (line 251), where
  the closed form \<open>(1 - m) * (1 - m) + m * m\<close> is 0.9802.
\<close>

theorem two_and_zero_one_gene_factor:
  "parents family ''Child'' {''Child''} {''Dad''} = Inr (Some 5)
   \<and> joint_step family {''Child''} {''Dad''} {} 1 ''Child'' = Inr (0.9801 * 0.44)
   \<and> (1 - PROBS_mutation) * (1 - PROBS_mutation) + PROBS_mutation * PROBS_mutation = 0.9802"
  by (simp add: family_defs code_defs)

section \<open>The joint probability is a probability\<close>

lemma scale_bounds:
  fixes q c :: real
  assumes "0 \<le> q" and "q \<le> 1" and "0 \<le> c" and "c \<le> 1"
  shows "0 \<le> q * c \<and> q * c \<le> 1"
  using assms by (simp add: mult_le_one)

lemma gene_prob_bounds:
  "0 \<le> gene_prob p one_gene two_genes have_trait
   \<and> gene_prob p one_gene two_genes have_trait \<le> 1"
  by (simp add: gene_prob_def PROBS_gene_def PROBS_trait_def)

lemma branch0_bounds:
  fixes q :: real
  assumes "0 \<le> q" and "q \<le> 1"
  shows "0 \<le> branch0 nm one_gene two_genes have_trait q
         \<and> branch0 nm one_gene two_genes have_trait q \<le> 1"
  using assms
  by (auto simp add: branch0_def Let_def PROBS_mutation_def PROBS_trait_def)

lemma branch1_bounds:
  fixes q :: real
  assumes "0 \<le> q" and "q \<le> 1"
  shows "0 \<le> branch1 nm one_gene two_genes have_trait q
         \<and> branch1 nm one_gene two_genes have_trait q \<le> 1"
  using assms
  by (auto simp add: branch1_def Let_def PROBS_mutation_def PROBS_trait_def)

lemma branch2_bounds:
  fixes q :: real
  assumes "0 \<le> q" and "q \<le> 1"
  shows "0 \<le> branch2 nm one_gene two_genes have_trait q
         \<and> branch2 nm one_gene two_genes have_trait q \<le> 1"
  using assms
  by (auto simp add: branch2_def Let_def PROBS_mutation_def PROBS_trait_def)

lemma branch3_bounds:
  fixes q :: real
  assumes "0 \<le> q" and "q \<le> 1"
  shows "0 \<le> branch3 nm one_gene two_genes have_trait q
         \<and> branch3 nm one_gene two_genes have_trait q \<le> 1"
  using assms
  by (auto simp add: branch3_def Let_def PROBS_mutation_def PROBS_trait_def)

lemma branch4_bounds:
  fixes q :: real
  assumes "0 \<le> q" and "q \<le> 1"
  shows "0 \<le> branch4 nm one_gene two_genes have_trait q
         \<and> branch4 nm one_gene two_genes have_trait q \<le> 1"
  using assms
  by (auto simp add: branch4_def Let_def PROBS_mutation_def PROBS_trait_def)

lemma branch5_bounds:
  fixes q :: real
  assumes "0 \<le> q" and "q \<le> 1"
  shows "0 \<le> branch5 nm one_gene two_genes have_trait q
         \<and> branch5 nm one_gene two_genes have_trait q \<le> 1"
  using assms
  by (auto simp add: branch5_def Let_def PROBS_mutation_def PROBS_trait_def)

lemma getitem_key:
  "p \<in> fst ` set people \<Longrightarrow> \<exists>r. getitem people p = Inr r"
  by (cases "map_of people p") (auto simp add: getitem_def map_of_eq_None_iff)

lemma joint_step_bounds:
  assumes "getitem people p = Inr r" and "0 \<le> q" and "q \<le> 1"
  shows "\<exists>q'. joint_step people one_gene two_genes have_trait q p = Inr q'
           \<and> 0 \<le> q' \<and> q' \<le> 1"
proof (cases "father r = None \<and> mother r = None")
  case True
  then have "joint_step people one_gene two_genes have_trait q p
               = Inr (q * gene_prob p one_gene two_genes have_trait)"
    by (simp add: joint_step_def check_parents_found [OF assms(1)] bind_r_def)
  then show ?thesis
    using scale_bounds [OF assms(2,3)] gene_prob_bounds by simp
next
  case False
  obtain code where code: "parents people p one_gene two_genes = Inr code"
    using parents_found [OF assms(1)] by blast
  note b = branch0_bounds branch1_bounds branch2_bounds branch3_bounds branch4_bounds
    branch5_bounds
  have founder: "check_parents people p = Inr False"
    using check_parents_found [OF assms(1)] False by simp
  have "joint_step people one_gene two_genes have_trait q p
      = Inr (if code = Some 0 then branch0 (name r) one_gene two_genes have_trait q
             else if code = Some 1 then branch1 (name r) one_gene two_genes have_trait q
             else if code = Some 2 then branch2 (name r) one_gene two_genes have_trait q
             else if code = Some 3 then branch3 (name r) one_gene two_genes have_trait q
             else if code = Some 4 then branch4 (name r) one_gene two_genes have_trait q
             else if code = Some 5 then branch5 (name r) one_gene two_genes have_trait q
             else q)"
    by (simp add: joint_step_def founder code assms(1) bind_r_def Let_def)
  then show ?thesis
    using b [OF assms(2,3)] assms(2,3) by simp
qed

lemma joint_loop_bounds:
  assumes "set ps \<subseteq> fst ` set people" and "0 \<le> q" and "q \<le> 1"
  shows "\<exists>q'. joint_loop people one_gene two_genes have_trait q ps = Inr q'
           \<and> 0 \<le> q' \<and> q' \<le> 1"
  using assms
proof (induction ps arbitrary: q)
  case Nil
  then show ?case by simp
next
  case (Cons p ps)
  from Cons.prems(1) obtain r where r: "getitem people p = Inr r"
    using getitem_key [of p people] by auto
  from joint_step_bounds [OF r Cons.prems(2,3)]
  obtain q1 where q1: "joint_step people one_gene two_genes have_trait q p = Inr q1"
    "0 \<le> q1" "q1 \<le> 1" by blast
  from Cons.prems(1) have "set ps \<subseteq> fst ` set people" by simp
  from Cons.IH [OF this q1(2,3)] show ?case
    by (simp add: q1(1) bind_r_def)
qed

text \<open>
  Claim C8. For disjoint sets \<open>one_gene\<close> and \<open>two_genes\<close> of people of the pedigree,
  \<open>joint_probability\<close> returns a number, and that number is at least 0 and at most 1.
\<close>

theorem joint_probability_bounds:
  assumes "one_gene \<inter> two_genes = {}"
    and "one_gene \<subseteq> fst ` set people" and "two_genes \<subseteq> fst ` set people"
  shows "\<exists>q. joint_probability people one_gene two_genes have_trait = Inr q
           \<and> 0 \<le> q \<and> q \<le> 1"
  unfolding joint_probability_def
  by (rule joint_loop_bounds) simp_all


theorem joint_probability_bounds_witness:
  "{''Child''} \<inter> {''Dad''} = ({} :: string set)
   \<and> {''Child''} \<subseteq> fst ` set family \<and> {''Dad''} \<subseteq> fst ` set family
   \<and> (\<exists>q. joint_probability family {''Child''} {''Dad''} {} = Inr q \<and> 0 \<le> q \<and> q \<le> 1)"
  using joint_probability_bounds [of "{''Child''}" "{''Dad''}" family "{}"]
  by (simp add: family_defs)

section \<open>The accumulators\<close>

text \<open>
  Claim C1, evaluated on the single founder: \<open>update\<close> is called with the joint
  probability of a triple and raises \<open>NotImplementedError\<close>; no bucket is changed.
\<close>

theorem update_not_implemented:
  "joint_probability loner {} {} {''Harry''} = Inr (0.96 * 0.01)
   \<and> update (init_probabilities loner) {} {} {''Harry''} (0.96 * 0.01)
       = Inl NotImplementedError"
  by (simp add: update_def loner_defs code_defs)

text \<open>
  Claim C2, evaluated on the accumulators of one person with masses 1, 1, 2 for the gene
  counts and 1, 3 for the trait: \<open>normalize\<close> sums the values of the outer dict, which
  are dicts, and raises \<open>TypeError\<close>; no distribution is rescaled.
\<close>

theorem normalize_type_error:
  "normalize
     [(''Harry'',
       Dict [(KStr ''gene'', Dict [(KInt 2, Num 1), (KInt 1, Num 1), (KInt 0, Num 2)]),
             (KStr ''trait'', Dict [(KBool True, Num 1), (KBool False, Num 3)])])]
   = Inl TypeError"
  by (simp add: normalize_def py_sum_def bind_r_def)

section \<open>The triples of the enumeration\<close>

lemma combinations_subset:
  "ys \<in> set (combinations xs r) \<Longrightarrow> set ys \<subseteq> set xs"
proof (induction xs r arbitrary: ys rule: combinations.induct)
  case (1 xs)
  then show ?case by simp
next
  case (2 r)
  then show ?case by simp
next
  case (3 x xs r)
  from "3.prems" consider zs where "ys = x # zs" "zs \<in> set (combinations xs r)"
    | "ys \<in> set (combinations xs (Suc r))"
    by auto
  then show ?case
  proof cases
    case 1
    then show ?thesis using "3.IH"(1) [of zs] by auto
  next
    case 2
    then show ?thesis using "3.IH"(2) [of ys] by auto
  qed
qed

lemma powerset_subset:
  "s \<in> set (powerset xs) \<Longrightarrow> s \<subseteq> set xs"
  by (auto simp add: powerset_def dest: combinations_subset)

lemma upt_two: "[0..<length [x] + 1] = [0, Suc 0]"
proof -
  have "[0..<Suc (Suc 0)] = [0, Suc 0]"
    by (simp only: upt_Suc upt_0 append_Nil append_Cons list.simps if_True le0 zero_less_Suc)
  then show ?thesis by simp
qed

lemma powerset_single: "powerset [x] = [{}, {x}]"
  unfolding powerset_def upt_two by simp

lemma powerset_empty: "powerset [] = [{}]"
  by (simp add: powerset_def)


lemma fails_evidence_False:
  assumes "fails_evidence people names have_trait = Inr False"
    and "p \<in> set names" and "getitem people p = Inr r" and "trait r = Some b"
  shows "(p \<in> have_trait) = b"
  using assms
proof (induction names)
  case Nil
  then show ?case by simp
next
  case (Cons n names)
  show ?case
  proof (cases "p = n")
    case True
    with Cons.prems show ?thesis
      by (auto simp add: bind_r_def split: if_splits)
  next
    case False
    with Cons.prems have "p \<in> set names" by simp
    moreover from Cons.prems(1) have "fails_evidence people names have_trait = Inr False"
      by (auto simp add: bind_r_def split: sum.splits if_splits)
    ultimately show ?thesis
      using Cons.IH Cons.prems(3,4) by blast
  qed
qed

lemma for_two_genes_calls:
  assumes "\<forall>t \<in> set calls. P t"
    and "\<forall>two_genes \<in> set tgs. P (one_gene, two_genes, have_trait)"
  shows "\<forall>t \<in> set (fst (for_two_genes upd people have_trait one_gene tgs (calls, probs))). P t"
  using assms
proof (induction tgs arbitrary: calls probs)
  case Nil
  then show ?case by simp
next
  case (Cons two_genes tgs)
  let ?calls = "calls @ [(one_gene, two_genes, have_trait)]"
  have inv: "\<forall>t \<in> set ?calls. P t"
    using Cons.prems by simp
  show ?case
  proof (cases "bind_r (joint_probability people one_gene two_genes have_trait)
                  (\<lambda>p. upd probs one_gene two_genes have_trait p)")
    case (Inl e)
    then show ?thesis using inv by simp
  next
    case (Inr probs')
    have "\<forall>t \<in> set (fst (for_two_genes upd people have_trait one_gene tgs (?calls, probs'))). P t"
      using Cons.IH [OF inv] Cons.prems(2) by simp
    then show ?thesis using Inr by simp
  qed
qed

lemma for_one_gene_calls:
  assumes "\<forall>t \<in> set calls. P t"
    and "\<forall>one_gene \<in> set ogs.
           \<forall>two_genes \<in> set (powerset (filter (\<lambda>n. n \<notin> one_gene) names)).
             P (one_gene, two_genes, have_trait)"
  shows "\<forall>t \<in> set (fst (for_one_gene upd people names have_trait ogs (calls, probs))). P t"
  using assms
proof (induction ogs arbitrary: calls probs)
  case Nil
  then show ?case by simp
next
  case (Cons one_gene ogs)
  obtain calls' res where inner:
    "for_two_genes upd people have_trait one_gene
       (powerset (filter (\<lambda>n. n \<notin> one_gene) names)) (calls, probs) = (calls', res)"
    by (cases "for_two_genes upd people have_trait one_gene
       (powerset (filter (\<lambda>n. n \<notin> one_gene) names)) (calls, probs)")
  have inv: "\<forall>t \<in> set calls'. P t"
    using for_two_genes_calls [of calls P "powerset (filter (\<lambda>n. n \<notin> one_gene) names)"
        one_gene have_trait upd people probs] Cons.prems inner
    by simp
  show ?case
  proof (cases res)
    case (Inl e)
    then show ?thesis using inv inner by simp
  next
    case (Inr probs')
    have "\<forall>t \<in> set (fst (for_one_gene upd people names have_trait ogs (calls', probs'))). P t"
      using Cons.IH [OF inv] Cons.prems(2) by simp
    then show ?thesis using Inr inner by simp
  qed
qed

lemma for_have_trait_calls:
  assumes "\<forall>t \<in> set calls. P t"
    and "\<forall>have_trait \<in> set hts. fails_evidence people names have_trait = Inr False \<longrightarrow>
           (\<forall>one_gene \<in> set (powerset names).
              \<forall>two_genes \<in> set (powerset (filter (\<lambda>n. n \<notin> one_gene) names)).
                P (one_gene, two_genes, have_trait))"
  shows "\<forall>t \<in> set (fst (for_have_trait upd people names hts (calls, probs))). P t"
  using assms
proof (induction hts arbitrary: calls probs)
  case Nil
  then show ?case by simp
next
  case (Cons have_trait hts)
  have rest: "\<forall>t \<in> set (fst (for_have_trait upd people names hts (c, q))). P t"
    if "\<forall>t \<in> set c. P t" for c q
    using Cons.IH [OF that] Cons.prems(2) by simp
  show ?case
  proof (cases "fails_evidence people names have_trait")
    case (Inl e)
    then show ?thesis using Cons.prems(1) by simp
  next
    case (Inr fails)
    show ?thesis
    proof (cases fails)
      case True
      then show ?thesis using Inr rest [OF Cons.prems(1)] by simp
    next
      case False
      obtain calls' res where inner:
        "for_one_gene upd people names have_trait (powerset names) (calls, probs) = (calls', res)"
        by (cases "for_one_gene upd people names have_trait (powerset names) (calls, probs)")
      have inv: "\<forall>t \<in> set calls'. P t"
        using for_one_gene_calls [of calls P "powerset names" names have_trait upd people probs]
          Cons.prems Inr False inner
        by simp
      show ?thesis
      proof (cases res)
        case (Inl e)
        then show ?thesis using inv inner Inr False by simp
      next
        case (Inr probs')
        then show ?thesis
          using rest [OF inv] inner \<open>fails_evidence people names have_trait = Inr fails\<close> False
          by simp
      qed
    qed
  qed
qed

text \<open>
  Claim C4. Every triple on which the driver calls \<open>joint_probability\<close>, whatever the
  function that folds the result into the accumulators does (\<open>update\<close> included), has
  \<open>one_gene\<close> and \<open>two_genes\<close> disjoint, \<open>two_genes\<close> being drawn from the people
  outside \<open>one_gene\<close>, and agrees with every known trait: a person whose trait is
  known is in \<open>have_trait\<close> exactly when the trait is \<open>True\<close>.
\<close>

theorem enumerated_triples_admissible:
  assumes "(one_gene, two_genes, have_trait) \<in> set (fst (enumerate_all upd people))"
  shows "one_gene \<inter> two_genes = {}
         \<and> one_gene \<subseteq> fst ` set people
         \<and> two_genes \<subseteq> fst ` set people - one_gene
         \<and> (\<forall>p r b. p \<in> fst ` set people \<and> getitem people p = Inr r \<and> trait r = Some b
               \<longrightarrow> (p \<in> have_trait) = b)"
proof -
  define names where "names = map fst people"
  define P :: "triple \<Rightarrow> bool" where
    "P = (\<lambda>t. case t of (og, tg, ht) \<Rightarrow>
            og \<inter> tg = {} \<and> og \<subseteq> set names \<and> tg \<subseteq> set names - og
            \<and> (\<forall>p r b. p \<in> set names \<and> getitem people p = Inr r \<and> trait r = Some b
                  \<longrightarrow> (p \<in> ht) = b))"
  have P_iff: "P (og, tg, ht) \<longleftrightarrow>
      og \<inter> tg = {} \<and> og \<subseteq> set names \<and> tg \<subseteq> set names - og
      \<and> (\<forall>p r b. p \<in> set names \<and> getitem people p = Inr r \<and> trait r = Some b
            \<longrightarrow> (p \<in> ht) = b)" for og tg ht
    by (simp add: P_def)
  have gen: "P (og, tg, ht)"
    if ok: "fails_evidence people names ht = Inr False"
      and og: "og \<in> set (powerset names)"
      and tg: "tg \<in> set (powerset (filter (\<lambda>n. n \<notin> og) names))"
    for og tg ht
  proof -
    have 1: "og \<subseteq> set names"
      using powerset_subset [OF og] .
    have "tg \<subseteq> set (filter (\<lambda>n. n \<notin> og) names)"
      using powerset_subset [OF tg] .
    then have 2: "tg \<subseteq> set names - og"
      by auto
    from 2 have 3: "og \<inter> tg = {}"
      by blast
    have 4: "(p \<in> ht) = b"
      if "p \<in> set names \<and> getitem people p = Inr r \<and> trait r = Some b" for p r b
      using fails_evidence_False [OF ok, of p r b] that by simp
    show ?thesis
      unfolding P_iff using 1 2 3 4 by blast
  qed
  have start: "\<forall>t \<in> set []. P t"
    by simp
  have body: "\<forall>ht \<in> set (powerset names). fails_evidence people names ht = Inr False \<longrightarrow>
           (\<forall>og \<in> set (powerset names).
              \<forall>tg \<in> set (powerset (filter (\<lambda>n. n \<notin> og) names)). P (og, tg, ht))"
    using gen by blast
  have all: "\<forall>t \<in> set (fst (for_have_trait upd people names (powerset names)
                                ([], init_probabilities people))). P t"
    using for_have_trait_calls [OF start body] .
  have mem: "(one_gene, two_genes, have_trait)
          \<in> set (fst (for_have_trait upd people names (powerset names)
                         ([], init_probabilities people)))"
    using assms by (simp add: enumerate_all_def names_def Let_def)
  have "P (one_gene, two_genes, have_trait)"
    using bspec [OF all mem] .
  then show ?thesis
    unfolding P_iff names_def set_map .
qed


text \<open>
  The single founder with the trait known, run with accumulators that are left as they
  are: the triple with Harry in \<open>one_gene\<close> and in \<open>have_trait\<close> is reached.
\<close>

theorem enumerated_triples_admissible_witness:
  "({''Harry''}, {}, {''Harry''})
     \<in> set (fst (enumerate_all (\<lambda>probs one_gene two_genes have_trait p. Inr probs) loner))
   \<and> {''Harry''} \<inter> {} = ({} :: string set)
   \<and> getitem loner ''Harry'' = Inr harry \<and> trait harry = Some True
   \<and> ''Harry'' \<in> {''Harry''}"
  using enumerated_triples_admissible
    [of "{''Harry''}" "{}" "{''Harry''}" "\<lambda>probs one_gene two_genes have_trait p. Inr probs" loner]
  by (simp add: enumerate_all_def powerset_single powerset_empty loner_defs code_defs)

section \<open>Malformed pedigrees\<close>

text \<open>
  Claim C9 as stated fails on the pedigree \<open>malformed\<close>: nothing checks its structure,
  the enumeration starts, \<open>joint_probability\<close> is called on the first triple and returns
  a number, and the run ends in \<open>update\<close> as it does for a well-formed pedigree.
\<close>

theorem malformed_pedigree_not_rejected:
  "enumerate_all update malformed = ([({}, {}, {})], Inl NotImplementedError)
   \<and> joint_probability malformed {} {} {} = Inr (0.9801 * 0.99)
   \<and> main_core malformed = Inl NotImplementedError"
  by (simp add: main_core_def enumerate_all_def powerset_single powerset_empty update_def
      malformed_def orphan_def code_defs)

text \<open>
  The enumeration is complete and checks nothing but the known traits: with a function
  \<open>upd\<close> that does not raise, it ends without an error on every pedigree and calls
  \<open>joint_probability\<close> on every triple of sets of people that has \<open>two_genes\<close> outside
  \<open>one_gene\<close> and agrees with the known traits.
\<close>

lemma combinations_filter:
  "filter P xs \<in> set (combinations xs (length (filter P xs)))"
proof (induction xs)
  case Nil
  then show ?case by simp
next
  case (Cons x xs)
  show ?case
  proof (cases "P x")
    case True
    then show ?thesis using Cons.IH by simp
  next
    case False
    show ?thesis
    proof (cases "length (filter P xs)")
      case 0
      then show ?thesis using False by simp
    next
      case (Suc n)
      then show ?thesis using False Cons.IH by simp
    qed
  qed
qed

lemma powerset_complete:
  assumes "s \<subseteq> set xs"
  shows "s \<in> set (powerset xs)"
proof -
  let ?ys = "filter (\<lambda>x. x \<in> s) xs"
  have "set ?ys = s" using assms by auto
  moreover have "length ?ys \<in> set [0..<length xs + 1]"
  proof -
    have "length ?ys \<le> length xs"
      by (rule length_filter_le)
    then show ?thesis
      unfolding set_upt atLeastLessThan_iff by linarith
  qed
  moreover have "?ys \<in> set (combinations xs (length ?ys))"
    by (rule combinations_filter)
  ultimately have "\<exists>ys \<in> set (concat (map (combinations xs) [0..<length xs + 1])). set ys = s"
    unfolding set_concat set_map by blast
  then show ?thesis
    unfolding powerset_def set_map by blast
qed

lemma fails_evidence_consistent:
  assumes "set names \<subseteq> fst ` set people"
    and "\<forall>q s b. getitem people q = Inr s \<and> trait s = Some b \<longrightarrow> (q \<in> have_trait) = b"
  shows "fails_evidence people names have_trait = Inr False"
  using assms(1)
proof (induction names)
  case Nil
  then show ?case by simp
next
  case (Cons p names)
  from Cons.prems obtain r where r: "getitem people p = Inr r"
    using getitem_key [of p people] by auto
  have "trait r = None \<or> trait r = Some (p \<in> have_trait)"
  proof (cases "trait r")
    case None
    then show ?thesis by simp
  next
    case (Some b)
    then have "(p \<in> have_trait) = b" using assms(2) r by blast
    then show ?thesis using Some by simp
  qed
  moreover have "fails_evidence people names have_trait = Inr False"
    using Cons.IH Cons.prems by simp
  ultimately show ?case
    by (auto simp add: r bind_r_def)
qed

lemma fails_evidence_returns:
  assumes "set names \<subseteq> fst ` set people"
  shows "\<exists>b. fails_evidence people names have_trait = Inr b"
  using assms
proof (induction names)
  case Nil
  have "fails_evidence people [] have_trait = Inr False"
    by simp
  then show ?case by blast
next
  case (Cons p names)
  from Cons.prems obtain r where r: "getitem people p = Inr r"
    using getitem_key [of p people] by auto
  from Cons.IH Cons.prems obtain b where b: "fails_evidence people names have_trait = Inr b"
    by auto
  have step: "fails_evidence people (p # names) have_trait
      = (if trait r \<noteq> None \<and> trait r \<noteq> Some (p \<in> have_trait) then Inr True
         else fails_evidence people names have_trait)"
    by (simp only: fails_evidence.simps r bind_r_def sum.case)
  show ?case
  proof (cases "trait r \<noteq> None \<and> trait r \<noteq> Some (p \<in> have_trait)")
    case True
    then have "fails_evidence people (p # names) have_trait = Inr True"
      unfolding step by (rule if_P)
    then show ?thesis by blast
  next
    case False
    then have "fails_evidence people (p # names) have_trait
                 = fails_evidence people names have_trait"
      unfolding step by (rule if_not_P)
    then show ?thesis using b by simp
  qed
qed

lemma joint_probability_returns:
  "\<exists>q. joint_probability people one_gene two_genes have_trait = Inr q \<and> 0 \<le> q \<and> q \<le> 1"
  unfolding joint_probability_def
  by (rule joint_loop_bounds) simp_all

lemma for_two_genes_run:
  assumes "\<forall>probs og tg ht q. \<exists>probs'. upd probs og tg ht q = Inr probs'"
  shows "\<exists>calls' probs'.
           for_two_genes upd people have_trait one_gene tgs (calls, probs) = (calls', Inr probs')
           \<and> set calls \<subseteq> set calls'
           \<and> (\<forall>two_genes \<in> set tgs. (one_gene, two_genes, have_trait) \<in> set calls')"
proof (induction tgs arbitrary: calls probs)
  case Nil
  then show ?case by simp
next
  case (Cons two_genes tgs)
  obtain q where q: "joint_probability people one_gene two_genes have_trait = Inr q"
    using joint_probability_returns by blast
  obtain probs1 where p1: "upd probs one_gene two_genes have_trait q = Inr probs1"
    using assms by blast
  let ?calls = "calls @ [(one_gene, two_genes, have_trait)]"
  from Cons.IH [of ?calls probs1] obtain calls' probs' where
    run: "for_two_genes upd people have_trait one_gene tgs (?calls, probs1) = (calls', Inr probs')"
    and mono: "set ?calls \<subseteq> set calls'"
    and all: "\<forall>tg \<in> set tgs. (one_gene, tg, have_trait) \<in> set calls'"
    by blast
  have "for_two_genes upd people have_trait one_gene (two_genes # tgs) (calls, probs)
          = (calls', Inr probs')"
    by (simp add: q p1 bind_r_def run)
  moreover have "set calls \<subseteq> set calls'"
    using mono by simp
  moreover have "\<forall>tg \<in> set (two_genes # tgs). (one_gene, tg, have_trait) \<in> set calls'"
    using mono all by simp
  ultimately show ?case by blast
qed

lemma for_one_gene_run:
  assumes "\<forall>probs og tg ht q. \<exists>probs'. upd probs og tg ht q = Inr probs'"
  shows "\<exists>calls' probs'.
           for_one_gene upd people names have_trait ogs (calls, probs) = (calls', Inr probs')
           \<and> set calls \<subseteq> set calls'
           \<and> (\<forall>one_gene \<in> set ogs.
                 \<forall>two_genes \<in> set (powerset (filter (\<lambda>n. n \<notin> one_gene) names)).
                   (one_gene, two_genes, have_trait) \<in> set calls')"
proof (induction ogs arbitrary: calls probs)
  case Nil
  then show ?case by simp
next
  case (Cons one_gene ogs)
  let ?tgs = "powerset (filter (\<lambda>n. n \<notin> one_gene) names)"
  from for_two_genes_run [OF assms, of people have_trait one_gene ?tgs calls probs]
  obtain calls1 probs1 where
    run1: "for_two_genes upd people have_trait one_gene ?tgs (calls, probs) = (calls1, Inr probs1)"
    and mono1: "set calls \<subseteq> set calls1"
    and all1: "\<forall>tg \<in> set ?tgs. (one_gene, tg, have_trait) \<in> set calls1"
    by blast
  from Cons.IH [of calls1 probs1] obtain calls' probs' where
    run: "for_one_gene upd people names have_trait ogs (calls1, probs1) = (calls', Inr probs')"
    and mono: "set calls1 \<subseteq> set calls'"
    and all: "\<forall>og \<in> set ogs. \<forall>tg \<in> set (powerset (filter (\<lambda>n. n \<notin> og) names)).
                (og, tg, have_trait) \<in> set calls'"
    by blast
  have "for_one_gene upd people names have_trait (one_gene # ogs) (calls, probs)
          = (calls', Inr probs')"
    by (simp add: run1 run)
  moreover have "set calls \<subseteq> set calls'"
    using mono1 mono by blast
  moreover have "\<forall>og \<in> set (one_gene # ogs).
                   \<forall>tg \<in> set (powerset (filter (\<lambda>n. n \<notin> og) names)).
                     (og, tg, have_trait) \<in> set calls'"
    using all1 mono all by auto
  ultimately show ?case by blast
qed

lemma for_have_trait_run:
  assumes "\<forall>probs og tg ht q. \<exists>probs'. upd probs og tg ht q = Inr probs'"
    and "set names \<subseteq> fst ` set people"
  shows "\<exists>calls' probs'.
           for_have_trait upd people names hts (calls, probs) = (calls', Inr probs')
           \<and> set calls \<subseteq> set calls'
           \<and> (\<forall>have_trait \<in> set hts.
                 fails_evidence people names have_trait = Inr False \<longrightarrow>
                 (\<forall>one_gene \<in> set (powerset names).
                    \<forall>two_genes \<in> set (powerset (filter (\<lambda>n. n \<notin> one_gene) names)).
                      (one_gene, two_genes, have_trait) \<in> set calls'))"
proof (induction hts arbitrary: calls probs)
  case Nil
  then show ?case by simp
next
  case (Cons have_trait hts)
  show ?case
  proof (cases "fails_evidence people names have_trait = Inr False")
    case True
    from for_one_gene_run [OF assms(1), of people names have_trait "powerset names" calls probs]
    obtain calls1 probs1 where
      run1: "for_one_gene upd people names have_trait (powerset names) (calls, probs)
               = (calls1, Inr probs1)"
      and mono1: "set calls \<subseteq> set calls1"
      and all1: "\<forall>og \<in> set (powerset names).
                   \<forall>tg \<in> set (powerset (filter (\<lambda>n. n \<notin> og) names)).
                     (og, tg, have_trait) \<in> set calls1"
      by blast
    from Cons.IH [of calls1 probs1] obtain calls' probs' where
      run: "for_have_trait upd people names hts (calls1, probs1) = (calls', Inr probs')"
      and mono: "set calls1 \<subseteq> set calls'"
      and all: "\<forall>ht \<in> set hts. fails_evidence people names ht = Inr False \<longrightarrow>
                 (\<forall>og \<in> set (powerset names).
                    \<forall>tg \<in> set (powerset (filter (\<lambda>n. n \<notin> og) names)).
                      (og, tg, ht) \<in> set calls')"
      by blast
    have "for_have_trait upd people names (have_trait # hts) (calls, probs)
            = (calls', Inr probs')"
      by (simp add: True run1 run)
    moreover have "set calls \<subseteq> set calls'"
      using mono1 mono by blast
    moreover have "\<forall>ht \<in> set (have_trait # hts). fails_evidence people names ht = Inr False \<longrightarrow>
                 (\<forall>og \<in> set (powerset names).
                    \<forall>tg \<in> set (powerset (filter (\<lambda>n. n \<notin> og) names)).
                      (og, tg, ht) \<in> set calls')"
      using all1 mono all by auto
    ultimately show ?thesis by blast
  next
    case False
    have "\<exists>b. fails_evidence people names have_trait = Inr b"
      using fails_evidence_returns [OF assms(2)] .
    with False have skip: "fails_evidence people names have_trait = Inr True"
      by auto
    from Cons.IH [of calls probs] obtain calls' probs' where
      run: "for_have_trait upd people names hts (calls, probs) = (calls', Inr probs')"
      and mono: "set calls \<subseteq> set calls'"
      and all: "\<forall>ht \<in> set hts. fails_evidence people names ht = Inr False \<longrightarrow>
                 (\<forall>og \<in> set (powerset names).
                    \<forall>tg \<in> set (powerset (filter (\<lambda>n. n \<notin> og) names)).
                      (og, tg, ht) \<in> set calls')"
      by blast
    have "for_have_trait upd people names (have_trait # hts) (calls, probs)
            = (calls', Inr probs')"
      by (simp add: skip run)
    moreover have "\<forall>ht \<in> set (have_trait # hts). fails_evidence people names ht = Inr False \<longrightarrow>
                 (\<forall>og \<in> set (powerset names).
                    \<forall>tg \<in> set (powerset (filter (\<lambda>n. n \<notin> og) names)).
                      (og, tg, ht) \<in> set calls')"
      using all False by simp
    ultimately show ?thesis using mono by blast
  qed
qed

lemma enumerate_all_complete:
  assumes "\<forall>probs og tg ht q. \<exists>probs'. upd probs og tg ht q = Inr probs'"
    and "one_gene \<subseteq> fst ` set people"
    and "two_genes \<subseteq> fst ` set people - one_gene"
    and "have_trait \<subseteq> fst ` set people"
    and "\<forall>q s b. getitem people q = Inr s \<and> trait s = Some b \<longrightarrow> (q \<in> have_trait) = b"
  shows "(one_gene, two_genes, have_trait) \<in> set (fst (enumerate_all upd people))
         \<and> (\<exists>probs. snd (enumerate_all upd people) = Inr probs)"
proof -
  define names where "names = map fst people"
  have keys: "set names \<subseteq> fst ` set people"
    by (simp add: names_def)
  have ht: "have_trait \<in> set (powerset names)"
    using assms(4) by (intro powerset_complete) (simp add: names_def)
  have og: "one_gene \<in> set (powerset names)"
    using assms(2) by (intro powerset_complete) (simp add: names_def)
  have "two_genes \<subseteq> set (filter (\<lambda>n. n \<notin> one_gene) names)"
    using assms(3) by (auto simp add: names_def)
  then have tg: "two_genes \<in> set (powerset (filter (\<lambda>n. n \<notin> one_gene) names))"
    by (rule powerset_complete)
  have ok: "fails_evidence people names have_trait = Inr False"
    using fails_evidence_consistent [OF keys assms(5)] .
  from for_have_trait_run [OF assms(1) keys, of "powerset names" "[]" "init_probabilities people"]
  obtain calls' probs' where
    run: "for_have_trait upd people names (powerset names) ([], init_probabilities people)
            = (calls', Inr probs')"
    and all: "\<forall>ht \<in> set (powerset names). fails_evidence people names ht = Inr False \<longrightarrow>
                 (\<forall>og \<in> set (powerset names).
                    \<forall>tg \<in> set (powerset (filter (\<lambda>n. n \<notin> og) names)).
                      (og, tg, ht) \<in> set calls')"
    by blast
  have "(one_gene, two_genes, have_trait) \<in> set calls'"
    using all ht ok og tg by blast
  moreover have "enumerate_all upd people = (calls', Inr probs')"
    using run by (simp add: enumerate_all_def names_def Let_def)
  ultimately show ?thesis by simp
qed


text \<open>
  Claim C9, amended. No structural check is made on a malformed pedigree. Let a person
  have a parent recorded and a parent that is absent or is not a person of the pedigree,
  and let \<open>one_gene\<close>, \<open>two_genes\<close> and \<open>have_trait\<close> be sets of people of the pedigree,
  \<open>two_genes\<close> outside \<open>one_gene\<close>, that agree with the known traits. Then the missing
  parent counts as a parent with zero copies: \<open>parents\<close> returns the code 4, 5 or 0 as
  the other parent has one copy, two copies or none, and the round of the person
  multiplies \<open>joint_p\<close> by the block of that code; \<open>joint_probability\<close> returns a number
  between 0 and 1 without raising; and the enumeration, with a function \<open>upd\<close> that
  does not raise, calls \<open>joint_probability\<close> on the triple and ends without an error.
\<close>

theorem missing_parent_counts_as_zero_copies:
  assumes row: "getitem people p = Inr r"
    and nonfounder: "father r \<noteq> None \<or> mother r \<noteq> None"
    and missing: "(\<forall>n. father r = Some n \<longrightarrow> n \<notin> fst ` set people)
                  \<or> (\<forall>n. mother r = Some n \<longrightarrow> n \<notin> fst ` set people)"
    and og: "one_gene \<subseteq> fst ` set people"
    and tg: "two_genes \<subseteq> fst ` set people - one_gene"
    and ht: "have_trait \<subseteq> fst ` set people"
    and evidence: "\<forall>q s b. getitem people q = Inr s \<and> trait s = Some b
                     \<longrightarrow> (q \<in> have_trait) = b"
    and upd: "\<forall>probs og tg ht q. \<exists>probs'. upd probs og tg ht q = Inr probs'"
  shows "parents people p one_gene two_genes
           = Inr (Some (if py_in (father r) one_gene \<or> py_in (mother r) one_gene then 4
                        else if py_in (father r) two_genes \<or> py_in (mother r) two_genes then 5
                        else 0))
         \<and> joint_step people one_gene two_genes have_trait joint_p p
           = Inr (if py_in (father r) one_gene \<or> py_in (mother r) one_gene
                  then branch4 (name r) one_gene two_genes have_trait joint_p
                  else if py_in (father r) two_genes \<or> py_in (mother r) two_genes
                  then branch5 (name r) one_gene two_genes have_trait joint_p
                  else branch0 (name r) one_gene two_genes have_trait joint_p)
         \<and> (\<exists>q. joint_probability people one_gene two_genes have_trait = Inr q
                \<and> 0 \<le> q \<and> q \<le> 1)
         \<and> (one_gene, two_genes, have_trait) \<in> set (fst (enumerate_all upd people))
         \<and> (\<exists>probs. snd (enumerate_all upd people) = Inr probs)"
proof -
  have absent: "\<not> py_in x one_gene \<and> \<not> py_in x two_genes"
    if "\<forall>n. x = Some n \<longrightarrow> n \<notin> fst ` set people" for x
  proof (cases x)
    case None
    then show ?thesis by simp
  next
    case (Some n)
    with that have "n \<notin> fst ` set people" by simp
    with og tg have "n \<notin> one_gene \<and> n \<notin> two_genes" by blast
    then show ?thesis using Some by simp
  qed
  have zero: "(\<not> py_in (father r) one_gene \<and> \<not> py_in (father r) two_genes)
              \<or> (\<not> py_in (mother r) one_gene \<and> \<not> py_in (mother r) two_genes)"
    using missing absent [of "father r"] absent [of "mother r"] by blast
  have founder: "check_parents people p = Inr False"
    using check_parents_found [OF row] nonfounder by simp
  let ?one = "py_in (father r) one_gene \<or> py_in (mother r) one_gene"
  let ?two = "py_in (father r) two_genes \<or> py_in (mother r) two_genes"
  have classified: "parents people p one_gene two_genes
           = Inr (Some (if ?one then 4 else if ?two then 5 else 0))
         \<and> joint_step people one_gene two_genes have_trait joint_p p
           = Inr (if ?one then branch4 (name r) one_gene two_genes have_trait joint_p
                  else if ?two then branch5 (name r) one_gene two_genes have_trait joint_p
                  else branch0 (name r) one_gene two_genes have_trait joint_p)"
  proof (cases ?one)
    case True
    have code: "parents people p one_gene two_genes = Inr (Some 4)"
      using parents_found [OF row, of one_gene two_genes] zero True by (auto simp add: Let_def)
    have "joint_step people one_gene two_genes have_trait joint_p p
            = Inr (branch4 (name r) one_gene two_genes have_trait joint_p)"
      by (simp add: joint_step_def founder code row bind_r_def Let_def)
    then show ?thesis using code True by simp
  next
    case False
    note not_one = False
    show ?thesis
    proof (cases ?two)
      case True
      have code: "parents people p one_gene two_genes = Inr (Some 5)"
        using parents_found [OF row, of one_gene two_genes] zero True not_one
        by (auto simp add: Let_def)
      have "joint_step people one_gene two_genes have_trait joint_p p
              = Inr (branch5 (name r) one_gene two_genes have_trait joint_p)"
        by (simp add: joint_step_def founder code row bind_r_def Let_def)
      then show ?thesis using code True not_one by simp
    next
      case False
      have code: "parents people p one_gene two_genes = Inr (Some 0)"
        using parents_found [OF row, of one_gene two_genes] False not_one
        by (auto simp add: Let_def)
      have "joint_step people one_gene two_genes have_trait joint_p p
              = Inr (branch0 (name r) one_gene two_genes have_trait joint_p)"
        by (simp add: joint_step_def founder code row bind_r_def Let_def)
      then show ?thesis using code False not_one by simp
    qed
  qed
  have returns: "\<exists>q. joint_probability people one_gene two_genes have_trait = Inr q
                   \<and> 0 \<le> q \<and> q \<le> 1"
    by (rule joint_probability_returns)
  have run: "(one_gene, two_genes, have_trait) \<in> set (fst (enumerate_all upd people))
             \<and> (\<exists>probs. snd (enumerate_all upd people) = Inr probs)"
    using enumerate_all_complete [OF upd og tg ht evidence] .
  show ?thesis
    using classified returns run by blast
qed

theorem missing_parent_counts_as_zero_copies_witness:
  "getitem one_parent ''Child'' = Inr half_orphan
   \<and> father half_orphan = None \<and> mother half_orphan = Some ''Mom''
   \<and> {''Mom''} \<subseteq> fst ` set one_parent \<and> {} \<subseteq> fst ` set one_parent - {''Mom''}
   \<and> parents one_parent ''Child'' {''Mom''} {} = Inr (Some 4)
   \<and> joint_step one_parent {''Mom''} {} {} 1 ''Child''
       = Inr ((1 - 0.01) * 0.5 * 0.99)
   \<and> ({''Mom''}, {}, {})
       \<in> set (fst (enumerate_all (\<lambda>probs one_gene two_genes have_trait p. Inr probs)
                      one_parent))"
  using missing_parent_counts_as_zero_copies
    [of one_parent "''Child''" half_orphan "{''Mom''}" "{}" "{}"
       "\<lambda>probs one_gene two_genes have_trait p. Inr probs" 1]
  by (simp add: one_parent_def half_orphan_def mom_def getitem_def branch4_def
      PROBS_mutation_def PROBS_trait_def)

end
